theory Spec2Isabelle
  imports Main
begin

section \<open>Python values used by passwordforge\<close>

text \<open>
  The program is a Python script. Its strings are modelled as \<^typ>\<open>string\<close>; the model
  reads every character as an ASCII code point, so case mapping and the whitespace test
  are those of Python on ASCII text. A raised exception is a value: every operation of
  the source that can raise returns \<open>py_exn + 'a\<close>, with \<open>Inl\<close> for the exception.
\<close>

datatype py_exn = IndexError | ValueError | ReError

definition ebind :: "py_exn + 'a \<Rightarrow> ('a \<Rightarrow> py_exn + 'b) \<Rightarrow> py_exn + 'b" where
  "ebind m f = (case m of Inl e \<Rightarrow> Inl e | Inr v \<Rightarrow> f v)"

text \<open>\<^verbatim>\<open>try: body  except ValueError: handler\<close>: only a ValueError is caught.\<close>

definition except_ValueError :: "py_exn + 'a \<Rightarrow> py_exn + 'a \<Rightarrow> py_exn + 'a" where
  "except_ValueError body handler =
     (case body of Inl e \<Rightarrow> (if e = ValueError then handler else Inl e) | Inr v \<Rightarrow> Inr v)"

text \<open>
  \<^verbatim>\<open>xs[i]\<close> and \<^verbatim>\<open>xs[i] = v\<close> on a Python list: a negative index counts from the end,
  an index outside \<open>[-len, len)\<close> raises IndexError.
\<close>

definition py_index :: "'a list \<Rightarrow> int \<Rightarrow> py_exn + nat" where
  "py_index xs i =
     (if 0 \<le> i \<and> i < int (length xs) then Inr (nat i)
      else if i < 0 \<and> - int (length xs) \<le> i then Inr (nat (int (length xs) + i))
      else Inl IndexError)"

definition py_getitem :: "'a list \<Rightarrow> int \<Rightarrow> py_exn + 'a" where
  "py_getitem xs i = ebind (py_index xs i) (\<lambda>j. Inr (xs ! j))"

definition py_setitem :: "'a list \<Rightarrow> int \<Rightarrow> 'a \<Rightarrow> py_exn + 'a list" where
  "py_setitem xs i v = ebind (py_index xs i) (\<lambda>j. Inr (xs[j := v]))"

subsection \<open>Characters\<close>

abbreviation BSL :: char where "BSL \<equiv> CHR 0x5C"

definition code :: "char \<Rightarrow> nat" where
  "code c = of_char c"

definition upper_letters :: string where
  "upper_letters = ''ABCDEFGHIJKLMNOPQRSTUVWXYZ''"

definition lower_letters :: string where
  "lower_letters = ''abcdefghijklmnopqrstuvwxyz''"

definition lower_char :: "char \<Rightarrow> char" where
  "lower_char c = (case map_of (zip upper_letters lower_letters) c of Some d \<Rightarrow> d | None \<Rightarrow> c)"

definition upper_char :: "char \<Rightarrow> char" where
  "upper_char c = (case map_of (zip lower_letters upper_letters) c of Some d \<Rightarrow> d | None \<Rightarrow> c)"

text \<open>\<^verbatim>\<open>s.lower()\<close> and \<^verbatim>\<open>s.upper()\<close>.\<close>

definition py_lower :: "string \<Rightarrow> string" where
  "py_lower s = map lower_char s"

definition py_upper :: "string \<Rightarrow> string" where
  "py_upper s = map upper_char s"

text \<open>\<^verbatim>\<open>c.isspace()\<close> on ASCII: tab, line feed, VT, FF, CR, the separators 28 to 31, space.\<close>

definition is_space :: "char \<Rightarrow> bool" where
  "is_space c = (code c = 32 \<or> (9 \<le> code c \<and> code c \<le> 13) \<or> (28 \<le> code c \<and> code c \<le> 31))"

definition is_digit :: "char \<Rightarrow> bool" where
  "is_digit c = (48 \<le> code c \<and> code c \<le> 57)"

definition is_octdigit :: "char \<Rightarrow> bool" where
  "is_octdigit c = (48 \<le> code c \<and> code c \<le> 55)"

definition is_ascii_letter :: "char \<Rightarrow> bool" where
  "is_ascii_letter c = ((65 \<le> code c \<and> code c \<le> 90) \<or> (97 \<le> code c \<and> code c \<le> 122))"

definition digit_val :: "char \<Rightarrow> nat" where
  "digit_val c = code c - 48"

subsection \<open>String methods\<close>

text \<open>\<^verbatim>\<open>s.strip()\<close>: leading and trailing whitespace removed.\<close>

definition py_strip :: "string \<Rightarrow> string" where
  "py_strip s = rev (dropWhile is_space (rev (dropWhile is_space s)))"

text \<open>
  \<^verbatim>\<open>s.split()\<close>: the maximal runs of non-whitespace characters, in order. The loop keeps
  the token being read in \<open>cur\<close>.
\<close>

fun split_ws :: "string \<Rightarrow> string \<Rightarrow> string list" where
  "split_ws cur [] = (if cur = [] then [] else [cur])"
| "split_ws cur (c # cs) =
     (if is_space c then (if cur = [] then split_ws [] cs else cur # split_ws [] cs)
      else split_ws (cur @ [c]) cs)"

definition py_split :: "string \<Rightarrow> string list" where
  "py_split s = split_ws [] s"

text \<open>
  \<^verbatim>\<open>int(s)\<close> on an ASCII string: the whitespace of C's \<^verbatim>\<open>isspace\<close> (tab to carriage
  return, and space) is dropped at both ends, then an optional sign and decimal digits,
  where single underscores may stand between two digits. Anything else raises ValueError.
  (CPython's configurable limit on the number of digits is not modelled.)
\<close>

definition is_c_space :: "char \<Rightarrow> bool" where
  "is_c_space c = (code c = 32 \<or> (9 \<le> code c \<and> code c \<le> 13))"

fun digits_value :: "bool \<Rightarrow> nat \<Rightarrow> string \<Rightarrow> nat option" where
  "digits_value after_digit acc [] = (if after_digit then Some acc else None)"
| "digits_value after_digit acc (c # cs) =
     (if is_digit c then digits_value True (10 * acc + digit_val c) cs
      else if c = CHR ''_'' \<and> after_digit then digits_value False acc cs
      else None)"

definition py_int :: "string \<Rightarrow> py_exn + int" where
  "py_int s =
     (let t = rev (dropWhile is_c_space (rev (dropWhile is_c_space s)));
          negative = (t \<noteq> [] \<and> hd t = CHR ''-'');
          body = (if t \<noteq> [] \<and> (hd t = CHR ''-'' \<or> hd t = CHR ''+'') then tl t else t)
      in case digits_value False 0 body of
           None \<Rightarrow> Inl ValueError
         | Some n \<Rightarrow> Inr (if negative then - int n else int n))"

text \<open>
  Leftmost, non-overlapping replacement of the matches of a literal pattern, shared by
  \<^verbatim>\<open>str.replace\<close> and \<^verbatim>\<open>Pattern.sub\<close> on an escaped pattern. \<open>eq\<close> compares a
  pattern character with a text character; \<open>expand\<close> gives the inserted text from the
  matched text. The empty pattern matches before every character and at the end.
\<close>

definition match_here :: "(char \<Rightarrow> char \<Rightarrow> bool) \<Rightarrow> string \<Rightarrow> string \<Rightarrow> bool" where
  "match_here eq pat s = (length pat \<le> length s \<and> list_all2 eq pat (take (length pat) s))"

function replace_matches ::
  "(char \<Rightarrow> char \<Rightarrow> bool) \<Rightarrow> string \<Rightarrow> (string \<Rightarrow> string) \<Rightarrow> string \<Rightarrow> string" where
  "replace_matches eq pat expand s =
     (if pat = [] then
        (case s of [] \<Rightarrow> expand [] | c # cs \<Rightarrow> expand [] @ c # replace_matches eq pat expand cs)
      else if s = [] then []
      else if match_here eq pat s then
        expand (take (length pat) s) @ replace_matches eq pat expand (drop (length pat) s)
      else hd s # replace_matches eq pat expand (tl s))"
  by pat_completeness auto
termination
  by (relation "measure (\<lambda>(eq, pat, expand, s). length s)") auto

declare replace_matches.simps [simp del]

text \<open>\<^verbatim>\<open>s.replace(old, new)\<close>.\<close>

definition py_replace :: "string \<Rightarrow> string \<Rightarrow> string \<Rightarrow> string" where
  "py_replace s old new = replace_matches (=) old (\<lambda>m. new) s"

subsection \<open>Replacement templates of the re module\<close>

text \<open>
  \<^verbatim>\<open>Pattern.sub(repl, s)\<close> reads a string \<open>repl\<close> as a template (CPython 3.12,
  \<^verbatim>\<open>re._parser.parse_template\<close>): a backslash starts an escape. The pattern here is
  \<^verbatim>\<open>re.escape(char)\<close>, which has no group, so the only group reference that is
  accepted is \<^verbatim>\<open>\g<0>\<close>, the whole match (CPython 3.11 also takes a signed or
  underscored zero as the group name, with a deprecation warning). One step reads one
  item at the head of the template and returns it with the rest of the template.
\<close>

datatype tpl_item = Lit string | Whole_match

definition control_escapes :: "(char \<times> char) list" where
  "control_escapes =
     [(CHR ''a'', CHR 0x07), (CHR ''b'', CHR 0x08), (CHR ''f'', CHR 0x0C), (CHR ''n'', CHR 0x0A),
      (CHR ''r'', CHR 0x0D), (CHR ''t'', CHR 0x09), (CHR ''v'', CHR 0x0B), (BSL, BSL)]"

definition is_identifier :: "string \<Rightarrow> bool" where
  "is_identifier name =
     (name \<noteq> [] \<and> \<not> is_digit (hd name) \<and>
      list_all (\<lambda>c. is_ascii_letter c \<or> is_digit c \<or> c = CHR ''_'') name)"

text \<open>\<^verbatim>\<open>\g<name>\<close>, read after the \<^verbatim>\<open>\g\<close>.\<close>

definition group_escape :: "string \<Rightarrow> py_exn + (tpl_item \<times> string)" where
  "group_escape rest =
     (case rest of
        [] \<Rightarrow> Inl ReError
      | lt # body \<Rightarrow>
          if lt \<noteq> CHR ''<'' then Inl ReError
          else (case dropWhile (\<lambda>c. c \<noteq> CHR ''>'') body of
                  [] \<Rightarrow> Inl ReError
                | gt # after \<Rightarrow>
                    (let name = takeWhile (\<lambda>c. c \<noteq> CHR ''>'') body in
                     if name = [] \<or> after = [BSL] then Inl ReError
                     else if list_all is_digit name then
                       (if list_all (\<lambda>c. c = CHR ''0'') name then Inr (Whole_match, after)
                        else Inl ReError)
                     else if is_identifier name then Inl IndexError
                     else Inl ReError)))"

text \<open>\<^verbatim>\<open>\0\<close> with up to two more octal digits: the character of that octal value.\<close>

definition zero_escape :: "string \<Rightarrow> py_exn + (tpl_item \<times> string)" where
  "zero_escape rest =
     (case rest of
        d1 # d2 # after \<Rightarrow>
          if is_octdigit d1 \<and> is_octdigit d2
          then Inr (Lit [char_of (8 * digit_val d1 + digit_val d2)], after)
          else if is_octdigit d1 then Inr (Lit [char_of (digit_val d1)], d2 # after)
          else Inr (Lit [CHR 0x00], rest)
      | [d1] \<Rightarrow> if is_octdigit d1 then Inr (Lit [char_of (digit_val d1)], [])
                else Inr (Lit [CHR 0x00], rest)
      | [] \<Rightarrow> Inr (Lit [CHR 0x00], []))"

text \<open>
  \<^verbatim>\<open>\1\<close> to \<^verbatim>\<open>\9\<close>: three octal digits are a character, anything else is a reference
  to a group of that number, which the pattern does not have.
\<close>

definition digit_escape :: "char \<Rightarrow> string \<Rightarrow> py_exn + (tpl_item \<times> string)" where
  "digit_escape c rest =
     (case rest of
        d1 # d2 # after \<Rightarrow>
          if is_octdigit c \<and> is_octdigit d1 \<and> is_octdigit d2 then
            (let v = 64 * digit_val c + 8 * digit_val d1 + digit_val d2
             in if v > 255 then Inl ReError else Inr (Lit [char_of v], after))
          else Inl ReError
      | _ \<Rightarrow> Inl ReError)"

definition next_item :: "char \<Rightarrow> string \<Rightarrow> py_exn + (tpl_item \<times> string)" where
  "next_item c cs =
     (if c \<noteq> BSL then Inr (Lit [c], cs)
      else (case cs of
              [] \<Rightarrow> Inl ReError
            | e # rest \<Rightarrow>
                if e = CHR ''g'' then group_escape rest
                else if e = CHR ''0'' then zero_escape rest
                else if is_digit e then digit_escape e rest
                else (case map_of control_escapes e of
                        Some ch \<Rightarrow> Inr (Lit [ch], rest)
                      | None \<Rightarrow> if is_ascii_letter e then Inl ReError
                                else Inr (Lit [BSL, e], rest))))"

function parse_template :: "string \<Rightarrow> py_exn + tpl_item list" where
  "parse_template [] = Inr []"
| "parse_template (c # cs) =
     (case next_item c cs of
        Inl e \<Rightarrow> Inl e
      | Inr (item, rest) \<Rightarrow> ebind (parse_template rest) (\<lambda>items. Inr (item # items)))"
  by pat_completeness auto
termination
proof (relation "measure length")
  show "wf (measure length)" by simp
next
  fix c :: char and cs :: string and x2 :: "tpl_item \<times> string" and item rest
  assume n: "next_item c cs = Inr x2" and x: "(item, rest) = x2"
  have g: "length r \<le> length b" if "group_escape b = Inr (i, r)" for b i r
  proof -
    from that obtain lt body gt where b: "b = lt # body"
      and d: "dropWhile (\<lambda>c. c \<noteq> CHR ''>'') body = gt # r"
      by (auto simp: group_escape_def Let_def split: list.splits if_splits)
    have "length (dropWhile (\<lambda>c. c \<noteq> CHR ''>'') body) \<le> length body"
      by (rule length_dropWhile_le)
    with b d show ?thesis by simp
  qed
  have z: "length r \<le> length b" if "zero_escape b = Inr (i, r)" for b i r
    using that by (auto simp: zero_escape_def split: list.splits if_splits)
  have dg: "length r \<le> length b" if "digit_escape e b = Inr (i, r)" for e b i r
    using that by (auto simp: digit_escape_def Let_def split: list.splits if_splits)
  from n x have "length rest \<le> length cs"
    by (auto simp: next_item_def split: if_splits list.splits option.splits dest: g z dg)
  then show "(rest, c # cs) \<in> measure length" by simp
qed

fun expand_template :: "tpl_item list \<Rightarrow> string \<Rightarrow> string" where
  "expand_template [] m = []"
| "expand_template (Lit s # items) m = s @ expand_template items m"
| "expand_template (Whole_match # items) m = m @ expand_template items m"

text \<open>
  \<^verbatim>\<open>re.compile(re.escape(char), re.IGNORECASE).sub(replacement, result)\<close>: the template
  is read first (and may raise), then every match of \<open>char\<close>, compared ignoring case,
  is replaced by the expansion of the template.
\<close>

definition eq_ignorecase :: "char \<Rightarrow> char \<Rightarrow> bool" where
  "eq_ignorecase a b = (lower_char a = lower_char b)"

definition re_sub_ignorecase :: "string \<Rightarrow> string \<Rightarrow> string \<Rightarrow> py_exn + string" where
  "re_sub_ignorecase char replacement result =
     ebind (parse_template replacement)
       (\<lambda>items. Inr (replace_matches eq_ignorecase char (expand_template items) result))"

section \<open>Rules\<close>

text \<open>
  The source keeps a rule in a dict with a \<^verbatim>\<open>"type"\<close> key; the three shapes the parser
  builds are the constructors here. \<^verbatim>\<open>rule["instance"]\<close> is the string \<^verbatim>\<open>"all"\<close> or
  an int; \<^verbatim>\<open>rule["char"]\<close> is a token of the rule text, of any length.
\<close>

datatype operation = Upper | Lower

datatype ordinal = All | Nth int

datatype target = Position int | CharacterInstance string int

datatype rule = Replace string ordinal string | CaseTransform operation target

section \<open>apply_rules\<close>

definition case_op :: "operation \<Rightarrow> string \<Rightarrow> string" where
  "case_op operation s = (case operation of Upper \<Rightarrow> py_upper s | Lower \<Rightarrow> py_lower s)"

text \<open>
  The test of the four scanning loops: \<^verbatim>\<open>c.lower() == char_lower\<close> when matching
  ignores case, \<^verbatim>\<open>c == char\<close> otherwise.
\<close>

definition is_match :: "bool \<Rightarrow> string \<Rightarrow> char \<Rightarrow> bool" where
  "is_match case_insensitive char c =
     (if case_insensitive then py_lower [c] = py_lower char else [c] = char)"

text \<open>
  The loop \<^verbatim>\<open>for c in result\<close> with its state \<open>count\<close>, \<open>new_result\<close>. The four
  loops of the source differ in the test \<open>hit\<close> and in what is appended for the
  character that brings the count to \<open>instance\<close>, given by \<open>subst\<close>.
\<close>

fun scan_nth ::
  "(char \<Rightarrow> bool) \<Rightarrow> int \<Rightarrow> (char \<Rightarrow> string) \<Rightarrow> string \<Rightarrow> int \<Rightarrow> string \<Rightarrow> int \<times> string" where
  "scan_nth hit instance subst [] count new_result = (count, new_result)"
| "scan_nth hit instance subst (c # cs) count new_result =
     (if hit c then
        (if count + 1 = instance
         then scan_nth hit instance subst cs (count + 1) (new_result @ subst c)
         else scan_nth hit instance subst cs (count + 1) (new_result @ [c]))
      else scan_nth hit instance subst cs count (new_result @ [c]))"

fun apply_rule :: "string \<Rightarrow> rule \<Rightarrow> bool \<Rightarrow> py_exn + string" where
  "apply_rule result (Replace char All replacement) case_insensitive =
     (if case_insensitive then re_sub_ignorecase char replacement result
      else Inr (py_replace result char replacement))"
| "apply_rule result (Replace char (Nth instance) replacement) case_insensitive =
     Inr (snd (scan_nth (is_match case_insensitive char) instance (\<lambda>c. replacement) result 0 []))"
| "apply_rule result (CaseTransform operation (Position position)) case_insensitive =
     (if position \<le> int (length result) then
        (let chars = map (\<lambda>c. [c]) result in
         ebind (py_getitem chars (position - 1)) (\<lambda>old.
         ebind (py_setitem chars (position - 1) (case_op operation old)) (\<lambda>chars'.
         Inr (concat chars'))))
      else Inr result)"
| "apply_rule result (CaseTransform operation (CharacterInstance char instance)) case_insensitive =
     (let (count, new_result) =
            (if char \<noteq> []
             then scan_nth (is_match case_insensitive char) instance
                    (\<lambda>c. case_op operation [c]) result 0 []
             else (0, []))
      in Inr (if count > 0 then new_result else result))"

text \<open>\<^verbatim>\<open>for rule in rules\<close>: each rule works on the result of the rules before it.\<close>

fun apply_rules :: "string \<Rightarrow> rule list \<Rightarrow> bool \<Rightarrow> py_exn + string" where
  "apply_rules result [] case_insensitive = Inr result"
| "apply_rules result (rule # rules) case_insensitive =
     ebind (apply_rule result rule case_insensitive)
       (\<lambda>result'. apply_rules result' rules case_insensitive)"

section \<open>split_escaped_delimiters\<close>

text \<open>
  \<^verbatim>\<open>re.split(r'(?<!\\)\|\|', text)\<close>: the text is cut at the leftmost, non-overlapping
  places where two bars stand that have no backslash right before them. \<open>esc\<close> says that
  the character before the current place is a backslash. The result is never empty; its
  first element is the piece being read.
\<close>

definition cons_first :: "char \<Rightarrow> string list \<Rightarrow> string list" where
  "cons_first c pieces = (case pieces of [] \<Rightarrow> [[c]] | p # ps \<Rightarrow> (c # p) # ps)"

fun re_split_bars :: "bool \<Rightarrow> string \<Rightarrow> string list" where
  "re_split_bars esc [] = [[]]"
| "re_split_bars esc [c] = [[c]]"
| "re_split_bars esc (c # d # cs) =
     (if c = CHR ''|'' \<and> d = CHR ''|'' \<and> \<not> esc then [] # re_split_bars False cs
      else cons_first c (re_split_bars (c = BSL) (d # cs)))"

definition split_escaped_delimiters :: "string \<Rightarrow> string \<Rightarrow> string list" where
  "split_escaped_delimiters text delimiter =
     map (\<lambda>part. py_strip (py_replace part (BSL # delimiter) delimiter)) (re_split_bars False text)"

section \<open>parse_single_rule\<close>

text \<open>
  A warning is what the parser prints before it returns \<^verbatim>\<open>None\<close>. The parser's result
  is \<open>Inl\<close> a raised exception, \<open>Inr (Inl w)\<close> for \<^verbatim>\<open>None\<close> after printing \<open>w\<close>, or
  \<open>Inr (Inr r)\<close> for the rule \<open>r\<close>.
\<close>

datatype warning =
    Invalid_operation string
  | Invalid_position_value string
  | All_not_supported
  | Invalid_instance_value string
  | Invalid_rule_format string

definition operation_words :: "string list" where
  "operation_words = [''upper'', ''u'', ''lower'', ''l'']"

definition normalize_operation :: "string \<Rightarrow> operation" where
  "normalize_operation operation = (if operation \<in> set [''u'', ''upper''] then Upper else Lower)"

definition parse_position_rule :: "string list \<Rightarrow> py_exn + (warning + rule)" where
  "parse_position_rule parts =
     except_ValueError
       (ebind (py_getitem parts 1) (\<lambda>p1.
        ebind (py_int p1) (\<lambda>position.
        ebind (py_getitem parts 2) (\<lambda>p2.
          (let operation = py_lower p2 in
           if operation \<in> set operation_words
           then Inr (Inr (CaseTransform (normalize_operation operation) (Position position)))
           else Inr (Inl (Invalid_operation operation)))))))
       (ebind (py_getitem parts 1) (\<lambda>p1. Inr (Inl (Invalid_position_value p1))))"

definition parse_character_rule :: "string list \<Rightarrow> py_exn + (warning + rule)" where
  "parse_character_rule parts =
     ebind (py_getitem parts 0) (\<lambda>char.
     ebind (py_getitem parts 1) (\<lambda>instance_str.
     ebind (py_getitem parts 2) (\<lambda>p2.
       (let operation = normalize_operation (py_lower p2) in
        if py_lower instance_str = ''all'' then Inr (Inl All_not_supported)
        else except_ValueError
               (ebind (py_int instance_str) (\<lambda>instance.
                  Inr (Inr (CaseTransform operation (CharacterInstance char instance)))))
               (Inr (Inl (Invalid_instance_value instance_str)))))))"

definition parse_replace_rule :: "string list \<Rightarrow> py_exn + (warning + rule)" where
  "parse_replace_rule parts =
     ebind (py_getitem parts 0) (\<lambda>char.
     ebind (py_getitem parts 1) (\<lambda>instance.
     ebind (py_getitem parts 2) (\<lambda>replacement.
       if py_lower instance = ''all'' then Inr (Inr (Replace char All replacement))
       else except_ValueError
              (ebind (py_int instance) (\<lambda>n. Inr (Inr (Replace char (Nth n) replacement))))
              (Inr (Inl (Invalid_instance_value instance))))))"

text \<open>
  The \<^verbatim>\<open>if\<close>/\<^verbatim>\<open>elif\<close> chain; \<^verbatim>\<open>and\<close> evaluates its right operand only when the left
  one holds.
\<close>

definition parse_single_rule :: "string \<Rightarrow> py_exn + (warning + rule)" where
  "parse_single_rule rule_text =
     (let parts = py_split rule_text in
      ebind (if length parts = 3
             then ebind (py_getitem parts 0) (\<lambda>p0. Inr (py_lower p0 = ''pos''))
             else Inr False) (\<lambda>is_position.
      if is_position then parse_position_rule parts
      else
      ebind (if length parts = 3
             then ebind (py_getitem parts 2) (\<lambda>p2. Inr (py_lower p2 \<in> set operation_words))
             else Inr False) (\<lambda>is_character.
      if is_character then parse_character_rule parts
      else if length parts \<ge> 3 then parse_replace_rule parts
      else Inr (Inl (Invalid_rule_format rule_text)))))"

section \<open>Notions of the specification\<close>

text \<open>The integer a rule carries: a position, or the number of an occurrence.\<close>

fun rule_ordinal :: "rule \<Rightarrow> int option" where
  "rule_ordinal (Replace char All replacement) = None"
| "rule_ordinal (Replace char (Nth n) replacement) = Some n"
| "rule_ordinal (CaseTransform operation (Position p)) = Some p"
| "rule_ordinal (CaseTransform operation (CharacterInstance char n)) = Some n"

text \<open>The invariant the data model of the specification states: ordinals are 1-based.\<close>

definition ordinals_positive :: "rule \<Rightarrow> bool" where
  "ordinals_positive r = (case rule_ordinal r of None \<Rightarrow> True | Some n \<Rightarrow> 0 < n)"

text \<open>
  The splitter in the words of the specification, reading the line from the left: a
  backslash immediately followed by the delimiter is an escaped delimiter, kept as the
  two bars without the backslash; a delimiter elsewhere ends the fragment; every other
  character, a stray backslash too, is kept as it is. Each fragment is then trimmed.
\<close>

fun spec_fragments :: "string \<Rightarrow> string list" where
  "spec_fragments (a # b # c # cs) =
     (if a = BSL \<and> b = CHR ''|'' \<and> c = CHR ''|''
      then cons_first (CHR ''|'') (cons_first (CHR ''|'') (spec_fragments cs))
      else if a = CHR ''|'' \<and> b = CHR ''|'' then [] # spec_fragments (c # cs)
      else cons_first a (spec_fragments (b # c # cs)))"
| "spec_fragments [a, b] = (if a = CHR ''|'' \<and> b = CHR ''|'' then [[], []] else [[a, b]])"
| "spec_fragments [a] = [[a]]"
| "spec_fragments [] = [[]]"






section \<open>Evaluation and auxiliary facts\<close>

lemmas char_defs = code_def is_space_def is_c_space_def is_digit_def is_octdigit_def is_ascii_letter_def digit_val_def
  lower_char_def upper_char_def upper_letters_def lower_letters_def py_lower_def py_upper_def

lemmas exn_defs = ebind_def except_ValueError_def py_index_def py_getitem_def py_setitem_def

lemmas str_defs = py_strip_def py_split_def py_int_def py_replace_def match_here_def
  replace_matches.simps

lemmas re_defs = re_sub_ignorecase_def next_item_def group_escape_def zero_escape_def digit_escape_def
  control_escapes_def is_identifier_def eq_ignorecase_def

lemmas parse_defs = parse_single_rule_def parse_position_rule_def parse_character_rule_def
  parse_replace_rule_def operation_words_def normalize_operation_def

lemmas apply_defs = case_op_def is_match_def

lemmas split_defs = split_escaped_delimiters_def cons_first_def

subsection \<open>The parser\<close>

lemma py_int_cases: "py_int t = Inl ValueError \<or> (\<exists>n. py_int t = Inr n)"
  by (simp add: py_int_def Let_def split: option.split)

lemma getitem_0: "py_getitem (a # xs) 0 = Inr a"
  by (simp add: exn_defs)

lemma getitem_1: "py_getitem (a # b # xs) 1 = Inr b"
  by (simp add: exn_defs)

lemma getitem_2: "py_getitem (a # b # c # xs) 2 = Inr c"
  by (simp add: exn_defs)

lemmas getitem_simps = getitem_0 getitem_1 getitem_2

lemma parse_position_rule_eq:
  "parse_position_rule (a # b # c # r) =
     (case py_int b of
        Inl e \<Rightarrow> Inr (Inl (Invalid_position_value b))
      | Inr n \<Rightarrow>
          if py_lower c \<in> set operation_words
          then Inr (Inr (CaseTransform (normalize_operation (py_lower c)) (Position n)))
          else Inr (Inl (Invalid_operation (py_lower c))))"
  using py_int_cases [of b]
  by (auto simp: parse_position_rule_def getitem_simps ebind_def except_ValueError_def Let_def)

lemma parse_character_rule_eq:
  "parse_character_rule (a # b # c # r) =
     (if py_lower b = ''all'' then Inr (Inl All_not_supported)
      else case py_int b of
             Inl e \<Rightarrow> Inr (Inl (Invalid_instance_value b))
           | Inr n \<Rightarrow> Inr (Inr (CaseTransform (normalize_operation (py_lower c)) (CharacterInstance a n))))"
  using py_int_cases [of b]
  by (auto simp: parse_character_rule_def getitem_simps ebind_def except_ValueError_def Let_def)

lemma parse_replace_rule_eq:
  "parse_replace_rule (a # b # c # r) =
     (if py_lower b = ''all'' then Inr (Inr (Replace a All c))
      else case py_int b of
             Inl e \<Rightarrow> Inr (Inl (Invalid_instance_value b))
           | Inr n \<Rightarrow> Inr (Inr (Replace a (Nth n) c)))"
  using py_int_cases [of b]
  by (auto simp: parse_replace_rule_def getitem_simps ebind_def except_ValueError_def Let_def)

lemma parse_three:
  "py_split s = [a, b, c] \<Longrightarrow>
   parse_single_rule s =
     (if py_lower a = ''pos'' then parse_position_rule [a, b, c]
      else if py_lower c \<in> set operation_words then parse_character_rule [a, b, c]
      else parse_replace_rule [a, b, c])"
  by (simp add: parse_single_rule_def getitem_simps ebind_def)

lemma parse_many:
  "py_split s = a # b # c # d # r \<Longrightarrow> parse_single_rule s = parse_replace_rule (a # b # c # d # r)"
  by (simp add: parse_single_rule_def ebind_def)

lemma parse_few:
  "length (py_split s) < 3 \<Longrightarrow> parse_single_rule s = Inr (Inl (Invalid_rule_format s))"
  by (simp add: parse_single_rule_def ebind_def)

lemma list_shape:
  "length xs < 3 \<or> (\<exists>a b c. xs = [a, b, c]) \<or> (\<exists>a b c d r. xs = a # b # c # d # r)"
  by (cases xs rule: list.exhaust; simp; (cases "tl xs"; simp; (cases "tl (tl xs)"; simp; (cases "tl (tl (tl xs))"; simp))))

lemma parse_returns: "\<exists>r. parse_single_rule s = Inr r"
proof -
  consider (few) "length (py_split s) < 3"
    | (three) a b c where "py_split s = [a, b, c]"
    | (many) a b c d r where "py_split s = a # b # c # d # r"
    using list_shape [of "py_split s"] by blast
  then show ?thesis
  proof cases
    case few
    then show ?thesis by (simp add: parse_few)
  next
    case three
    then show ?thesis
      by (simp add: parse_three parse_position_rule_eq parse_character_rule_eq parse_replace_rule_eq
          split: sum.split)
  next
    case many
    then show ?thesis
      by (simp add: parse_many parse_replace_rule_eq split: sum.split)
  qed
qed

lemma lower_char_other: "c \<notin> set upper_letters \<Longrightarrow> lower_char c = c"
proof -
  assume "c \<notin> set upper_letters"
  then have "c \<notin> fst ` set (zip upper_letters lower_letters)"
    by (simp add: upper_letters_def lower_letters_def)
  then have "map_of (zip upper_letters lower_letters) c = None"
    by (simp only: map_of_eq_None_iff not_False_eq_True)
  then show ?thesis by (simp add: lower_char_def)
qed

lemma lower_char_a: "lower_char x = CHR ''a'' \<Longrightarrow> x = CHR ''a'' \<or> x = CHR ''A''"
proof (cases "x \<in> set upper_letters")
  case False
  then show "lower_char x = CHR ''a'' \<Longrightarrow> ?thesis" by (simp add: lower_char_other)
next
  case True
  then have "x \<in> set ''ABCDEFGHIJKLMNOPQRSTUVWXYZ''" by (simp only: upper_letters_def)
  then show "lower_char x = CHR ''a'' \<Longrightarrow> ?thesis"
    by (simp only: set_simps insert_iff empty_iff)
       (elim disjE; simp add: lower_char_def upper_letters_def lower_letters_def)
qed

lemma lower_char_l: "lower_char x = CHR ''l'' \<Longrightarrow> x = CHR ''l'' \<or> x = CHR ''L''"
proof (cases "x \<in> set upper_letters")
  case False
  then show "lower_char x = CHR ''l'' \<Longrightarrow> ?thesis" by (simp add: lower_char_other)
next
  case True
  then have "x \<in> set ''ABCDEFGHIJKLMNOPQRSTUVWXYZ''" by (simp only: upper_letters_def)
  then show "lower_char x = CHR ''l'' \<Longrightarrow> ?thesis"
    by (simp only: set_simps insert_iff empty_iff)
       (elim disjE; simp add: lower_char_def upper_letters_def lower_letters_def)
qed

lemma lower_all_not_int: "py_lower t = ''all'' \<Longrightarrow> py_int t = Inl ValueError"
proof -
  assume h: "py_lower t = ''all''"
  then obtain x y z where t: "t = [x, y, z]" and x: "lower_char x = CHR ''a''"
    and y: "lower_char y = CHR ''l''" and z: "lower_char z = CHR ''l''"
    by (auto simp: py_lower_def)
  from lower_char_a [OF x] lower_char_l [OF y] lower_char_l [OF z] show ?thesis
    unfolding t
    by (elim disjE; simp add: py_int_def is_c_space_def is_digit_def code_def)
qed

subsection \<open>Auxiliary facts on the engine\<close>

lemma scan_nth_count:
  "fst (scan_nth hit n f xs k acc) = k + int (length (filter hit xs))"
  by (induction xs arbitrary: k acc) auto

lemma scan_nth_unreached:
  "n \<le> k \<or> k + int (length (filter hit xs)) < n \<Longrightarrow> snd (scan_nth hit n f xs k acc) = acc @ xs"
  by (induction xs arbitrary: k acc) auto

lemma scan_nth_reached:
  "hit c \<Longrightarrow> k + int (length (filter hit pre)) = n - 1 \<Longrightarrow>
   snd (scan_nth hit n f (pre @ c # post) k acc) = acc @ pre @ f c @ post"
proof (induction pre arbitrary: k acc)
  case Nil
  then have "k + 1 = n" by simp
  with Nil show ?case by (simp add: scan_nth_unreached)
next
  case (Cons p pre)
  show ?case
  proof (cases "hit p")
    case True
    with Cons.prems have ne: "k + 1 \<noteq> n" and k: "(k + 1) + int (length (filter hit pre)) = n - 1"
      by auto
    from Cons.IH [OF Cons.prems(1) k, of "acc @ [p]"] True ne show ?thesis by simp
  next
    case False
    with Cons.prems have k: "k + int (length (filter hit pre)) = n - 1" by simp
    from Cons.IH [OF Cons.prems(1) k, of "acc @ [p]"] False show ?thesis by simp
  qed
qed

lemma apply_rules_snoc:
  "apply_rules word (rules @ [r]) ci = ebind (apply_rules word rules ci) (\<lambda>w. apply_rule w r ci)"
proof (induction rules arbitrary: word)
  case Nil
  show ?case by (simp add: ebind_def split: sum.split)
next
  case (Cons a rules)
  then show ?case by (simp add: ebind_def split: sum.split)
qed

lemma concat_singletons: "concat (map (\<lambda>c. [c]) w) = w"
  by (induction w) auto

lemma concat_update:
  "j < length w \<Longrightarrow> concat ((map (\<lambda>c. [c]) w)[j := v]) = take j w @ v @ drop (Suc j) w"
proof -
  assume j: "j < length w"
  then have "(map (\<lambda>c. [c]) w)[j := v]
      = take j (map (\<lambda>c. [c]) w) @ v # drop (Suc j) (map (\<lambda>c. [c]) w)"
    by (simp add: upd_conv_take_nth_drop)
  then show ?thesis
    by (simp add: take_map drop_map concat_singletons)
qed

lemma apply_position_inside:
  assumes "1 \<le> p" and "p \<le> int (length w)"
  shows "apply_rule w (CaseTransform operation (Position p)) ci =
           Inr (take (nat p - 1) w @ case_op operation [w ! (nat p - 1)] @ drop (nat p) w)"
proof -
  from assms have j: "nat p - 1 < length w" and e: "nat (p - 1) = nat p - 1" and s: "Suc (nat p - 1) = nat p"
    by auto
  from assms have i: "py_index (map (\<lambda>c. [c]) w) (p - 1) = Inr (nat p - 1)"
    by (auto simp: py_index_def)
  from assms i j show ?thesis
    by (simp add: py_getitem_def py_setitem_def ebind_def concat_update s)
qed

lemma apply_position_from_end:
  assumes "p \<le> 0" and "1 - int (length w) \<le> p"
  shows "apply_rule w (CaseTransform operation (Position p)) ci =
           Inr (take (nat (int (length w) + p) - 1) w
                @ case_op operation [w ! (nat (int (length w) + p) - 1)]
                @ drop (nat (int (length w) + p)) w)"
proof -
  let ?q = "nat (int (length w) + p)"
  from assms have j: "?q - 1 < length w" and s: "Suc (?q - 1) = ?q"
    by auto
  from assms have e: "nat (int (length w) + (p - 1)) = ?q - 1" by linarith
  from assms have i: "py_index (map (\<lambda>c. [c]) w) (p - 1) = Inr (?q - 1)"
    by (auto simp: py_index_def e)
  from assms i j show ?thesis
    by (simp add: py_getitem_def py_setitem_def ebind_def concat_update s)
qed


lemma nth_hit_exists:
  "1 \<le> n \<Longrightarrow> n \<le> int (length (filter P xs)) \<Longrightarrow>
   \<exists>pre c post. xs = pre @ c # post \<and> P c \<and> int (length (filter P pre)) = n - 1"
proof (induction xs arbitrary: n)
  case Nil
  then show ?case by simp
next
  case (Cons x xs)
  show ?case
  proof (cases "P x \<and> n = 1")
    case True
    then have "x # xs = [] @ x # xs \<and> P x \<and> int (length (filter P [])) = n - 1" by simp
    then show ?thesis by blast
  next
    case False
    define m where "m = (if P x then n - 1 else n)"
    from False Cons.prems have "1 \<le> m" and "m \<le> int (length (filter P xs))"
      by (auto simp: m_def split: if_splits)
    from Cons.IH [OF this] obtain pre c post
      where xs: "xs = pre @ c # post" and c: "P c" and l: "int (length (filter P pre)) = m - 1"
      by blast
    from xs c l have "x # xs = (x # pre) @ c # post \<and> P c
        \<and> int (length (filter P (x # pre))) = n - 1"
      by (auto simp: m_def split: if_splits)
    then show ?thesis by blast
  qed
qed

subsection \<open>Auxiliary facts on the splitter\<close>





lemma spec_fragments_nonempty: "spec_fragments t \<noteq> []"
  by (induction t rule: spec_fragments.induct) (auto simp: cons_first_def split: list.split)

















section \<open>The claims\<close>

subsection \<open>The engine can raise\<close>

text \<open>
  Claim C1 says that \<open>apply_rules\<close> never raises, for every word and every ruleset of
  rules the parser returns. The code raises on such rulesets. The parser accepts any
  integer as a position; the engine's guard \<^verbatim>\<open>position <= len(result)\<close> lets a position
  below \<open>1\<close> through, and \<^verbatim>\<open>chars[position-1]\<close> raises IndexError on the empty word for
  position 0 and on a three-letter word for position -5. The parser also accepts a
  replacement with a backslash; with case-insensitive matching \<^verbatim>\<open>pattern.sub\<close> reads it
  as a template and raises re.error on the group reference \<^verbatim>\<open>\1\<close>.
\<close>

theorem apply_rules_raises:
  "parse_single_rule ''pos 0 upper'' = Inr (Inr (CaseTransform Upper (Position 0)))
   \<and> apply_rules '''' [CaseTransform Upper (Position 0)] False = Inl IndexError
   \<and> parse_single_rule ''pos -5 upper'' = Inr (Inr (CaseTransform Upper (Position (- 5))))
   \<and> apply_rules ''abc'' [CaseTransform Upper (Position (- 5))] False = Inl IndexError
   \<and> parse_single_rule (''a all '' @ [BSL, CHR ''1'']) = Inr (Inr (Replace ''a'' All [BSL, CHR ''1'']))
   \<and> apply_rules ''banana'' [Replace ''a'' All [BSL, CHR ''1'']] True = Inl ReError"
  by (simp add: char_defs exn_defs str_defs re_defs parse_defs apply_defs)

subsection \<open>Replacing all occurrences, ignoring case\<close>

text \<open>
  Claim C2 says that a Replace rule for all occurrences under case-insensitive matching
  inserts the replacement verbatim. The code passes the replacement to \<^verbatim>\<open>pattern.sub\<close>,
  which reads it as a template: the two characters backslash, \<open>n\<close> are inserted as one
  line feed. The case-sensitive branch, \<^verbatim>\<open>str.replace\<close>, inserts the same replacement
  verbatim.
\<close>

theorem replace_all_ignorecase_not_verbatim:
  "parse_single_rule (''a all '' @ [BSL, CHR ''n'']) = Inr (Inr (Replace ''a'' All [BSL, CHR ''n'']))
   \<and> apply_rules ''bAnana'' [Replace ''a'' All [BSL, CHR ''n'']] True
       = Inr [CHR ''b'', CHR 0x0A, CHR ''n'', CHR 0x0A, CHR ''n'', CHR 0x0A]
   \<and> apply_rules ''banana'' [Replace ''a'' All [BSL, CHR ''n'']] False
       = Inr [CHR ''b'', BSL, CHR ''n'', CHR ''n'', BSL, CHR ''n'', CHR ''n'', BSL, CHR ''n'']"
  by (simp add: char_defs exn_defs str_defs re_defs parse_defs apply_defs)

subsection \<open>Ordinals of parsed rules\<close>

text \<open>
  Claim C3 says that every rule the parser returns has strictly positive ordinals. The
  parser reads the ordinal with \<^verbatim>\<open>int\<close> and checks nothing more: the fragment
  \<^verbatim>\<open>pos 0 upper\<close> gives position 0.
\<close>

theorem parse_ordinal_counterexample:
  "parse_single_rule ''pos 0 upper'' = Inr (Inr (CaseTransform Upper (Position 0)))
   \<and> \<not> ordinals_positive (CaseTransform Upper (Position 0))"
  by (simp add: char_defs exn_defs str_defs parse_defs ordinals_positive_def)

text \<open>
  Claim C3 as amended: the ordinal of a rule the parser returns is the integer that
  \<^verbatim>\<open>int\<close> reads from the second token of the fragment, whatever its sign.
\<close>

theorem parse_ordinal_is_second_token:
  assumes "parse_single_rule s = Inr (Inr r)" and "rule_ordinal r = Some n"
  shows "\<exists>t1 t2 ts. py_split s = t1 # t2 # ts \<and> py_int t2 = Inr n"
proof -
  consider (few) "length (py_split s) < 3"
    | (three) a b c where "py_split s = [a, b, c]"
    | (many) a b c d ts where "py_split s = a # b # c # d # ts"
    using list_shape [of "py_split s"] by blast
  then show ?thesis
  proof cases
    case few
    with assms show ?thesis by (simp add: parse_few)
  next
    case three
    with assms have "py_int b = Inr n"
      by (auto simp: parse_three parse_position_rule_eq parse_character_rule_eq
          parse_replace_rule_eq split: if_splits sum.splits)
    with three show ?thesis by simp
  next
    case many
    with assms have "py_int b = Inr n"
      by (auto simp: parse_many parse_replace_rule_eq split: if_splits sum.splits)
    with many show ?thesis by simp
  qed
qed

theorem parse_ordinal_is_second_token_witness:
  "parse_single_rule ''a -2 x'' = Inr (Inr (Replace ''a'' (Nth (- 2)) ''x''))
   \<and> rule_ordinal (Replace ''a'' (Nth (- 2)) ''x'') = Some (- 2)
   \<and> (\<exists>t1 t2 ts. py_split ''a -2 x'' = t1 # t2 # ts \<and> py_int t2 = Inr (- 2))"
proof -
  have p: "parse_single_rule ''a -2 x'' = Inr (Inr (Replace ''a'' (Nth (- 2)) ''x''))"
    by (simp add: char_defs exn_defs str_defs parse_defs)
  have o: "rule_ordinal (Replace ''a'' (Nth (- 2)) ''x'') = Some (- 2)"
    by simp
  from parse_ordinal_is_second_token [OF p o] p o show ?thesis by blast
qed

subsection \<open>Replacing the n-th occurrence\<close>

text \<open>
  Claim C4 gives, as an instance, that replacing the second \<^verbatim>\<open>s\<close> of \<^verbatim>\<open>password\<close> by
  \<^verbatim>\<open>$\<close> yields \<^verbatim>\<open>pa$sword\<close>. That word has the first \<^verbatim>\<open>s\<close> replaced; the code
  replaces the second one.
\<close>

theorem replace_nth_counterexample:
  "apply_rules ''password'' [Replace ''s'' (Nth 2) ''$''] False \<noteq> Inr ''pa$sword''"
  by (simp add: ebind_def is_match_def)

text \<open>
  Claim C4 as amended: for a Replace rule with instance \<open>n \<ge> 1\<close>, where a character
  matches when it equals \<open>char\<close> (or, ignoring case, when the lowercased forms are equal):
  a word with fewer than \<open>n\<close> matching characters is returned unchanged; otherwise the
  word splits at its \<open>n\<close>-th matching character, the one with \<open>n - 1\<close> matching characters
  before it, and exactly that character is replaced by the replacement, all others staying
  in place. Replacing the second \<^verbatim>\<open>s\<close> of \<^verbatim>\<open>password\<close> by \<^verbatim>\<open>$\<close> yields \<^verbatim>\<open>pas$word\<close>.
\<close>

theorem replace_nth_occurrence:
  assumes "1 \<le> n"
  shows "(is_match False ch x \<longleftrightarrow> [x] = ch) \<and> (is_match True ch x \<longleftrightarrow> py_lower [x] = py_lower ch)
       \<and> (int (length (filter (is_match ci ch) word)) < n \<longrightarrow>
            apply_rules word [Replace ch (Nth n) repl] ci = Inr word)
       \<and> (word = pre @ c # post \<and> is_match ci ch c
            \<and> int (length (filter (is_match ci ch) pre)) = n - 1 \<longrightarrow>
            apply_rules word [Replace ch (Nth n) repl] ci = Inr (pre @ repl @ post))
       \<and> (n \<le> int (length (filter (is_match ci ch) word)) \<longrightarrow>
            (\<exists>pre c post. word = pre @ c # post \<and> is_match ci ch c
               \<and> int (length (filter (is_match ci ch) pre)) = n - 1))
       \<and> apply_rules ''password'' [Replace ''s'' (Nth 2) ''$''] False = Inr ''pas$word''"
proof (intro conjI impI)
  show "is_match False ch x \<longleftrightarrow> [x] = ch" by (simp add: is_match_def)
  show "is_match True ch x \<longleftrightarrow> py_lower [x] = py_lower ch" by (simp add: is_match_def)
next
  assume "int (length (filter (is_match ci ch) word)) < n"
  then show "apply_rules word [Replace ch (Nth n) repl] ci = Inr word"
    by (simp add: ebind_def scan_nth_unreached)
next
  assume "word = pre @ c # post \<and> is_match ci ch c
            \<and> int (length (filter (is_match ci ch) pre)) = n - 1"
  then show "apply_rules word [Replace ch (Nth n) repl] ci = Inr (pre @ repl @ post)"
    by (simp add: ebind_def scan_nth_reached)
next
  assume "n \<le> int (length (filter (is_match ci ch) word))"
  with assms show "\<exists>pre c post. word = pre @ c # post \<and> is_match ci ch c
               \<and> int (length (filter (is_match ci ch) pre)) = n - 1"
    by (rule nth_hit_exists)
next
  show "apply_rules ''password'' [Replace ''s'' (Nth 2) ''$''] False = Inr ''pas$word''"
    by (simp add: ebind_def is_match_def)
qed

theorem replace_nth_occurrence_witness:
  "apply_rules ''paSsword'' [Replace ''s'' (Nth 2) ''$$''] True = Inr ''paS$$word''
   \<and> apply_rules ''paSsword'' [Replace ''s'' (Nth 2) ''$$''] False = Inr ''paSsword''"
proof -
  have n: "(1::int) \<le> 2" by simp
  have a: "''paSsword'' = ''paS'' @ CHR ''s'' # ''word'' \<and> is_match True ''s'' CHR ''s''
      \<and> int (length (filter (is_match True ''s'') ''paS'')) = 2 - 1"
    by (simp add: is_match_def char_defs)
  have b: "int (length (filter (is_match False ''s'') ''paSsword'')) < 2"
    by (simp add: is_match_def)
  from replace_nth_occurrence [OF n, where ci = True and ch = "''s''" and word = "''paSsword''"
      and repl = "''$$''" and pre = "''paS''" and c = "CHR ''s''" and post = "''word''"] a
  have "apply_rules ''paSsword'' [Replace ''s'' (Nth 2) ''$$''] True = Inr (''paS'' @ ''$$'' @ ''word'')"
    by blast
  moreover
  from replace_nth_occurrence [OF n, where ci = False and ch = "''s''" and word = "''paSsword''"
      and repl = "''$$''"] b
  have "apply_rules ''paSsword'' [Replace ''s'' (Nth 2) ''$$''] False = Inr ''paSsword''"
    by blast
  ultimately show ?thesis by simp
qed

subsection \<open>Case transformation at a position\<close>

text \<open>
  Claim C5: a CaseTransform rule with position \<open>p \<ge> 1\<close> works on the word \<open>w\<close> that the
  rules before it have produced. When \<open>p\<close> is at most the length of \<open>w\<close>, the character
  at the 1-based position \<open>p\<close> is upper-cased by an Upper rule and lower-cased by a Lower
  rule, and all other characters stay; when \<open>p\<close> exceeds the length, \<open>w\<close> is returned
  unchanged. Upper-casing position 1 of \<^verbatim>\<open>password\<close> yields \<^verbatim>\<open>Password\<close>, and
  lower-casing position 1 of \<^verbatim>\<open>PASSWORD\<close> yields \<^verbatim>\<open>pASSWORD\<close>.
\<close>

theorem case_position:
  assumes "1 \<le> p" and "apply_rules word rules ci = Inr w"
  shows "apply_rules word (rules @ [CaseTransform Upper (Position p)]) ci =
           Inr (if p \<le> int (length w)
                then take (nat p - 1) w @ py_upper [w ! (nat p - 1)] @ drop (nat p) w
                else w)
         \<and> apply_rules word (rules @ [CaseTransform Lower (Position p)]) ci =
           Inr (if p \<le> int (length w)
                then take (nat p - 1) w @ py_lower [w ! (nat p - 1)] @ drop (nat p) w
                else w)
         \<and> apply_rules ''password'' [CaseTransform Upper (Position 1)] False = Inr ''Password''
         \<and> apply_rules ''PASSWORD'' [CaseTransform Lower (Position 1)] False = Inr ''pASSWORD''"
proof -
  have general: "apply_rules word (rules @ [CaseTransform operation (Position p)]) ci =
           Inr (if p \<le> int (length w)
                then take (nat p - 1) w @ case_op operation [w ! (nat p - 1)] @ drop (nat p) w
                else w)" for operation
  proof (cases "p \<le> int (length w)")
    case True
    with assms show ?thesis
      by (simp only: apply_rules_snoc apply_position_inside ebind_def sum.case if_True)
  next
    case False
    with assms show ?thesis
      by (simp add: apply_rules_snoc ebind_def)
  qed
  have up: "case_op Upper s = py_upper s" and low: "case_op Lower s = py_lower s" for s
    by (simp_all add: case_op_def)
  have e1: "apply_rules ''password'' [CaseTransform Upper (Position 1)] False = Inr ''Password''"
    by (simp add: char_defs exn_defs apply_defs)
  have e2: "apply_rules ''PASSWORD'' [CaseTransform Lower (Position 1)] False = Inr ''pASSWORD''"
    by (simp add: char_defs exn_defs apply_defs)
  from general [of Upper] general [of Lower] e1 e2 show ?thesis
    by (simp only: up low simp_thms)
qed

theorem case_position_witness:
  "apply_rules ''paSSword'' [Replace ''pa'' All ''''] False = Inr ''SSword''
   \<and> apply_rules ''paSSword'' [Replace ''pa'' All '''', CaseTransform Upper (Position 3)] False
       = Inr ''SSWord''
   \<and> apply_rules ''paSSword'' [Replace ''pa'' All '''', CaseTransform Lower (Position 2)] False
       = Inr ''Ssword''
   \<and> apply_rules ''paSSword'' [Replace ''pa'' All '''', CaseTransform Lower (Position 7)] False
       = Inr ''SSword''"
proof -
  have r: "apply_rules ''paSSword'' [Replace ''pa'' All ''''] False = Inr ''SSword''"
    by (simp add: exn_defs str_defs)
  have u: "py_upper ''w'' = ''W''" and l: "py_lower ''S'' = ''s''"
    by (simp_all add: char_defs)
  from case_position [OF _ r, where p = 3]
  have "apply_rules ''paSSword'' ([Replace ''pa'' All ''''] @ [CaseTransform Upper (Position 3)]) False
      = Inr ''SSWord''"
    by (simp add: u)
  moreover
  from case_position [OF _ r, where p = 2]
  have "apply_rules ''paSSword'' ([Replace ''pa'' All ''''] @ [CaseTransform Lower (Position 2)]) False
      = Inr ''Ssword''"
    by (simp add: l)
  moreover
  from case_position [OF _ r, where p = 7]
  have "apply_rules ''paSSword'' ([Replace ''pa'' All ''''] @ [CaseTransform Lower (Position 7)]) False
      = Inr ''SSword''"
    by simp
  ultimately show ?thesis using r by simp
qed

subsection \<open>Splitting a line at the delimiter\<close>




subsection \<open>The delimiter argument\<close>

text \<open>
  Claim C7 says that the delimiter argument of \<open>split_escaped_delimiters\<close> governs where
  the text is split. The regular expression of the code has the two bars written in, and
  the argument is used only to remove the escape: with the delimiter \<^verbatim>\<open>;\<close> the text
  \<^verbatim>\<open>a;b\<close> is not split, and the text \<^verbatim>\<open>a||b\<close> is.
\<close>

theorem split_ignores_delimiter_argument:
  "split_escaped_delimiters ''a;b'' '';'' = [''a;b'']
   \<and> split_escaped_delimiters ''a||b'' '';'' = [''a'', ''b'']"
  by (simp add: char_defs str_defs split_defs)

subsection \<open>The parser returns, and the case transformation of a character\<close>

text \<open>
  Claim C8: \<open>parse_single_rule\<close> never raises: on every fragment it returns a rule, or
  no rule after a warning. On a fragment of three tokens whose first token is not
  \<^verbatim>\<open>pos\<close> and whose third is one of \<^verbatim>\<open>upper\<close>, \<^verbatim>\<open>u\<close>, \<^verbatim>\<open>lower\<close>, \<^verbatim>\<open>l\<close> (all compared
  ignoring case): when the second token is \<^verbatim>\<open>all\<close> no rule is returned, with the warning
  that \<^verbatim>\<open>all\<close> is not supported; when the second token is read as the integer \<open>n\<close>, the
  rule is the case transformation of occurrence \<open>n\<close> of the first token, with the
  operation normalised. The fragment \<^verbatim>\<open>z 1 upper\<close> gives the upper-casing of the first
  \<^verbatim>\<open>z\<close>, and \<^verbatim>\<open>z all upper\<close> gives no rule.
\<close>

theorem parse_total_character_case:
  "(\<exists>r. parse_single_rule s = Inr r)
   \<and> (py_split s = [t1, t2, t3] \<and> py_lower t1 \<noteq> ''pos''
        \<and> py_lower t3 \<in> {''upper'', ''u'', ''lower'', ''l''} \<longrightarrow>
        (py_lower t2 = ''all'' \<longrightarrow> parse_single_rule s = Inr (Inl All_not_supported))
        \<and> (py_int t2 = Inr n \<longrightarrow>
             parse_single_rule s =
               Inr (Inr (CaseTransform
                          (if py_lower t3 \<in> {''upper'', ''u''} then Upper else Lower)
                          (CharacterInstance t1 n)))))
   \<and> parse_single_rule ''z 1 upper'' = Inr (Inr (CaseTransform Upper (CharacterInstance ''z'' 1)))
   \<and> parse_single_rule ''z all upper'' = Inr (Inl All_not_supported)"
proof (intro conjI impI)
  show "\<exists>r. parse_single_rule s = Inr r" by (rule parse_returns)
next
  assume h: "py_split s = [t1, t2, t3] \<and> py_lower t1 \<noteq> ''pos''
        \<and> py_lower t3 \<in> {''upper'', ''u'', ''lower'', ''l''}"
  assume "py_lower t2 = ''all''"
  with h show "parse_single_rule s = Inr (Inl All_not_supported)"
    by (simp add: parse_three parse_character_rule_eq operation_words_def)
next
  assume h: "py_split s = [t1, t2, t3] \<and> py_lower t1 \<noteq> ''pos''
        \<and> py_lower t3 \<in> {''upper'', ''u'', ''lower'', ''l''}"
  assume i: "py_int t2 = Inr n"
  then have "py_lower t2 \<noteq> ''all''" using lower_all_not_int [of t2] by auto
  with h i show "parse_single_rule s =
      Inr (Inr (CaseTransform (if py_lower t3 \<in> {''upper'', ''u''} then Upper else Lower)
                 (CharacterInstance t1 n)))"
    by (auto simp: parse_three parse_character_rule_eq operation_words_def normalize_operation_def)
next
  show "parse_single_rule ''z 1 upper'' = Inr (Inr (CaseTransform Upper (CharacterInstance ''z'' 1)))"
    by (simp add: char_defs exn_defs str_defs parse_defs)
next
  show "parse_single_rule ''z all upper'' = Inr (Inl All_not_supported)"
    by (simp add: char_defs exn_defs str_defs parse_defs)
qed

theorem parse_total_character_case_witness:
  "parse_single_rule ''Q ALL u'' = Inr (Inl All_not_supported)
   \<and> parse_single_rule ''Q 2 L'' = Inr (Inr (CaseTransform Lower (CharacterInstance ''Q'' 2)))"
proof -
  have s1: "py_split ''Q ALL u'' = [''Q'', ''ALL'', ''u''] \<and> py_lower ''Q'' \<noteq> ''pos''
        \<and> py_lower ''u'' \<in> {''upper'', ''u'', ''lower'', ''l''}"
    by (simp add: char_defs str_defs)
  have a1: "py_lower ''ALL'' = ''all''"
    by (simp add: char_defs)
  have s2: "py_split ''Q 2 L'' = [''Q'', ''2'', ''L''] \<and> py_lower ''Q'' \<noteq> ''pos''
        \<and> py_lower ''L'' \<in> {''upper'', ''u'', ''lower'', ''l''}"
    by (simp add: char_defs str_defs)
  have i2: "py_int ''2'' = Inr 2"
    by (simp add: char_defs str_defs)
  have l2: "(if py_lower ''L'' \<in> {''upper'', ''u''} then Upper else Lower) = Lower"
    by (simp add: char_defs)
  from parse_total_character_case [of "''Q ALL u''" "''Q''" "''ALL''" "''u''" 0] s1 a1
  have "parse_single_rule ''Q ALL u'' = Inr (Inl All_not_supported)" by blast
  moreover
  from parse_total_character_case [of "''Q 2 L''" "''Q''" "''2''" "''L''" 2] s2 i2
  have "parse_single_rule ''Q 2 L'' =
      Inr (Inr (CaseTransform (if py_lower ''L'' \<in> {''upper'', ''u''} then Upper else Lower)
                 (CharacterInstance ''Q'' 2)))" by blast
  ultimately show ?thesis by (simp only: l2)
qed

subsection \<open>Fragments of more than three tokens\<close>

text \<open>
  Claim C9 says that every fragment of four or more tokens gives a Replace rule with the
  third token as replacement. When the second token is neither \<^verbatim>\<open>all\<close> nor an integer
  the code returns no rule: the fragment \<^verbatim>\<open>a b c d\<close> gives the warning about the
  instance value.
\<close>

theorem parse_extra_tokens_counterexample:
  "parse_single_rule ''a b c d'' = Inr (Inl (Invalid_instance_value ''b''))"
  by (simp add: char_defs exn_defs str_defs parse_defs)

text \<open>
  Claim C9 as amended: on a fragment of four or more tokens, when the second token is
  \<^verbatim>\<open>all\<close> (ignoring case) or is read as an integer, the parser returns the Replace rule
  of the first three tokens, with the third token as replacement; otherwise it returns no
  rule, with the warning about the instance value. The result does not depend on the
  fourth and later tokens.
\<close>

theorem parse_extra_tokens_ignored:
  assumes "py_split s = t1 # t2 # t3 # t4 # ts"
  shows "parse_single_rule s =
           (if py_lower t2 = ''all'' then Inr (Inr (Replace t1 All t3))
            else case py_int t2 of
                   Inr n \<Rightarrow> Inr (Inr (Replace t1 (Nth n) t3))
                 | Inl e \<Rightarrow> Inr (Inl (Invalid_instance_value t2)))"
  using assms by (simp add: parse_many parse_replace_rule_eq split: sum.split)

theorem parse_extra_tokens_ignored_witness:
  "py_split ''o 1 0 extra words'' = [''o'', ''1'', ''0'', ''extra'', ''words'']
   \<and> parse_single_rule ''o 1 0 extra words'' = Inr (Inr (Replace ''o'' (Nth 1) ''0''))"
proof -
  have sp: "py_split ''o 1 0 extra words'' = [''o'', ''1'', ''0'', ''extra'', ''words'']"
    by (simp add: char_defs str_defs)
  have na: "py_lower ''1'' \<noteq> ''all''" by (simp add: char_defs)
  have i: "py_int ''1'' = Inr 1" by (simp add: char_defs str_defs)
  from parse_extra_tokens_ignored [OF sp] sp show ?thesis
    by (simp only: na i if_False sum.case simp_thms)
qed

subsection \<open>Positions below one\<close>

text \<open>
  Claim C10: a CaseTransform rule with a position \<open>p \<le> 0\<close> is not a no-op. On a word of
  length \<open>L\<close> with \<open>1 - L \<le> p\<close> the character at the 1-based position \<open>L + p\<close> is
  upper-cased by an Upper rule and lower-cased by a Lower rule (position 0 is the last
  character), and all other characters stay. Position 0 on \<^verbatim>\<open>password\<close> with Upper
  yields \<^verbatim>\<open>passworD\<close>, and on \<^verbatim>\<open>PASSWORD\<close> with Lower yields \<^verbatim>\<open>PASSWORd\<close>.
\<close>

theorem case_position_from_end:
  assumes "p \<le> 0" and "1 - int (length word) \<le> p"
  shows "apply_rules word [CaseTransform Upper (Position p)] ci =
           Inr (take (nat (int (length word) + p) - 1) word
                @ py_upper [word ! (nat (int (length word) + p) - 1)]
                @ drop (nat (int (length word) + p)) word)
       \<and> apply_rules word [CaseTransform Lower (Position p)] ci =
           Inr (take (nat (int (length word) + p) - 1) word
                @ py_lower [word ! (nat (int (length word) + p) - 1)]
                @ drop (nat (int (length word) + p)) word)
       \<and> apply_rules ''password'' [CaseTransform Upper (Position 0)] False = Inr ''passworD''
       \<and> apply_rules ''PASSWORD'' [CaseTransform Lower (Position 0)] False = Inr ''PASSWORd''
       \<and> apply_rules ''PASSWORD'' [CaseTransform Lower (Position 0)] False \<noteq> Inr ''PASSWORD''"
proof -
  have general: "apply_rules word [CaseTransform operation (Position p)] ci =
           Inr (take (nat (int (length word) + p) - 1) word
                @ case_op operation [word ! (nat (int (length word) + p) - 1)]
                @ drop (nat (int (length word) + p)) word)" for operation
    using assms by (simp only: apply_rules.simps apply_position_from_end ebind_def sum.case)
  have up: "case_op Upper s = py_upper s" and low: "case_op Lower s = py_lower s" for s
    by (simp_all add: case_op_def)
  have e1: "apply_rules ''password'' [CaseTransform Upper (Position 0)] False = Inr ''passworD''"
    by (simp add: char_defs exn_defs apply_defs)
  have e2: "apply_rules ''PASSWORD'' [CaseTransform Lower (Position 0)] False = Inr ''PASSWORd''"
    by (simp add: char_defs exn_defs apply_defs)
  from e2 have e3: "apply_rules ''PASSWORD'' [CaseTransform Lower (Position 0)] False \<noteq> Inr ''PASSWORD''"
    by simp
  from general [of Upper] general [of Lower] e1 e2 e3 show ?thesis
    by (simp only: up low simp_thms)
qed

theorem case_position_from_end_witness:
  "apply_rules ''password'' [CaseTransform Upper (Position (- 7))] False = Inr ''Password''
   \<and> apply_rules ''PASSword'' [CaseTransform Lower (Position (- 5))] True = Inr ''PAsSword''"
proof -
  have u: "py_upper ''p'' = ''P''" and l: "py_lower ''S'' = ''s''"
    by (simp_all add: char_defs)
  from case_position_from_end [where p = "- 7" and word = "''password''" and ci = False]
  have "apply_rules ''password'' [CaseTransform Upper (Position (- 7))] False = Inr ''Password''"
    by (simp add: u)
  moreover
  from case_position_from_end [where p = "- 5" and word = "''PASSword''" and ci = True]
  have "apply_rules ''PASSword'' [CaseTransform Lower (Position (- 5))] True = Inr ''PAsSword''"
    by (simp add: l)
  ultimately show ?thesis by simp
qed

end
